theory Spec2Isabelle
  imports Complex_Main "HOL-Library.Sublist" "HOL-Library.Word"
begin

section \<open>Face blur microservice: a shallow embedding of \<open>face_blur_service.py\<close>\<close>

text \<open>
  The service is one Flask handler (\<open>blur_video\<close>) that sequences a download
  (\<open>download_video\<close>), a frame loop (\<open>process_video\<close>, with
  \<open>detect_faces_in_frame\<close> and \<open>apply_face_blur\<close>) and two file-system calls.
  Everything the handler gets from a library (HTTP, the temporary-file module, video
  decoding and encoding, the cascade classifier, the Gaussian filter) is a field of the
  record \<open>world\<close>; the code of the repository itself is translated function by function.
  Calls to \<open>print\<close> are left out. The block under \<open>if __name__ == '__main__'\<close> is
  not embedded: its second statement compares with \<open>!==\<close>, which is not an operator of
  Python, so the file as it stands is rejected by the compiler before any statement runs.
  The functions are embedded as they are written.
\<close>

subsection \<open>Exceptions\<close>

text \<open>
  Every exception below is an instance of Python's \<open>Exception\<close>, which is what both
  \<open>except Exception\<close> clauses of the source catch. \<open>py_str\<close> is \<open>str(e)\<close>.
\<close>

datatype exn =
    Exception string           \<comment> \<open>\<open>raise Exception(msg)\<close> in the source\<close>
  | LibraryError string        \<comment> \<open>raised inside a library call; the string is its \<open>str\<close>\<close>
  | TypeError string
  | KeyError string
  | ZeroDivisionError
  | FileNotFoundError string   \<comment> \<open>the file name\<close>

definition quoted :: "string \<Rightarrow> string" where
  "quoted s = CHR 0x27 # s @ [CHR 0x27]"

fun py_str :: "exn \<Rightarrow> string" where
  "py_str (Exception m) = m"
| "py_str (LibraryError m) = m"
| "py_str (TypeError m) = m"
| "py_str (KeyError k) = quoted k"
| "py_str ZeroDivisionError = ''division by zero''"
| "py_str (FileNotFoundError p) = ''[Errno 2] No such file or directory: '' @ quoted p"

subsection \<open>Python's \<open>str.replace\<close>\<close>

text \<open>
  \<open>s.replace(old, new)\<close> scans \<open>s\<close> from the left and replaces every occurrence of
  \<open>old\<close> that does not overlap an earlier replaced one. For an empty \<open>old\<close> Python
  puts \<open>new\<close> before every character and at the end.
\<close>

fun replace_scan :: "string \<Rightarrow> string \<Rightarrow> string \<Rightarrow> string" where
  "replace_scan old new [] = []"
| "replace_scan old new (c # cs) =
     (if old \<noteq> [] \<and> prefix old (c # cs)
      then new @ replace_scan old new (drop (length old) (c # cs))
      else c # replace_scan old new cs)"

definition py_replace :: "string \<Rightarrow> string \<Rightarrow> string \<Rightarrow> string" where
  "py_replace s old new =
     (if old = [] then new @ concat (map (\<lambda>c. c # new) s) else replace_scan old new s)"

subsection \<open>Decimal rendering of an integer (the f-string of the success message)\<close>

fun digits :: "nat \<Rightarrow> string" where
  "digits n =
     (if n < 10 then [''0123456789'' ! n] else digits (n div 10) @ [''0123456789'' ! (n mod 10)])"

definition str_int :: "int \<Rightarrow> string" where
  "str_int i = (if i < 0 then CHR ''-'' # digits (nat (- i)) else digits (nat i))"

subsection \<open>JSON values as \<open>request.get_json()\<close> returns them\<close>

datatype json =
    JNull                       \<comment> \<open>\<open>None\<close>\<close>
  | JBool bool
  | JInt int
  | JFloat real                 \<comment> \<open>only its being zero or not is used\<close>
  | JStr string
  | JList "json list"
  | JDict "(string \<times> json) list"  \<comment> \<open>the items of the dict\<close>

text \<open>\<open>not data\<close> is \<open>\<not> truthy data\<close>.\<close>

fun truthy :: "json \<Rightarrow> bool" where
  "truthy JNull = False"
| "truthy (JBool b) = b"
| "truthy (JInt i) = (i \<noteq> 0)"
| "truthy (JFloat r) = (r \<noteq> 0)"
| "truthy (JStr s) = (s \<noteq> [])"
| "truthy (JList l) = (l \<noteq> [])"
| "truthy (JDict d) = (d \<noteq> [])"

definition not_a_container :: "string \<Rightarrow> exn" where
  "not_a_container ty = TypeError (''argument of type '' @ quoted ty @ '' is not iterable'')"

text \<open>\<open>key in data\<close>: key membership for a dict, element membership for a list, substring
  test for a string, and a \<open>TypeError\<close> for the other values.\<close>

fun py_in :: "string \<Rightarrow> json \<Rightarrow> exn + bool" where
  "py_in k (JDict d) = Inr (k \<in> fst ` set d)"
| "py_in k (JList l) = Inr (JStr k \<in> set l)"
| "py_in k (JStr s) = Inr (sublist k s)"
| "py_in k JNull = Inl (not_a_container ''NoneType'')"
| "py_in k (JBool b) = Inl (not_a_container ''bool'')"
| "py_in k (JInt i) = Inl (not_a_container ''int'')"
| "py_in k (JFloat r) = Inl (not_a_container ''float'')"

definition not_subscriptable :: "string \<Rightarrow> exn" where
  "not_subscriptable ty = TypeError (quoted ty @ '' object is not subscriptable'')"

text \<open>\<open>data[key]\<close> with a string key.\<close>

fun py_getitem :: "json \<Rightarrow> string \<Rightarrow> exn + json" where
  "py_getitem (JDict d) k = (case map_of d k of Some v \<Rightarrow> Inr v | None \<Rightarrow> Inl (KeyError k))"
| "py_getitem (JList l) k = Inl (TypeError ''list indices must be integers or slices, not str'')"
| "py_getitem (JStr s) k = Inl (TypeError (''string indices must be integers, not '' @ quoted ''str''))"
| "py_getitem JNull k = Inl (not_subscriptable ''NoneType'')"
| "py_getitem (JBool b) k = Inl (not_subscriptable ''bool'')"
| "py_getitem (JInt i) k = Inl (not_subscriptable ''int'')"
| "py_getitem (JFloat r) k = Inl (not_subscriptable ''float'')"

subsection \<open>The file system\<close>

text \<open>The files on disk, each with its size in bytes.\<close>

type_synonym path = string
type_synonym disk = "path \<rightharpoonup> nat"

text \<open>\<open>os.path.getsize\<close> raises for a path that does not exist.\<close>

definition getsize :: "disk \<Rightarrow> path \<Rightarrow> exn + nat" where
  "getsize d p = (case d p of None \<Rightarrow> Inl (FileNotFoundError p) | Some n \<Rightarrow> Inr n)"

text \<open>
  \<open>try: os.remove(p) except: pass\<close>: a missing file is not an error for the caller. The
  handler removes a file it has created itself, so the removal is taken to succeed and
  the file is gone afterwards.
\<close>

definition remove_quietly :: "disk \<Rightarrow> path \<Rightarrow> disk" where
  "remove_quietly d p = d(p := None)"

subsection \<open>The libraries the service calls\<close>

text \<open>
  A frame is a \<open>height \<times> width\<close> array of BGR pixels, a list of rows here. A face is
  the rectangle \<open>(x, y, w, h)\<close> that the classifier returns, a row of an array of numpy's
  \<open>int32\<close>: a signed 32-bit integer, read with \<open>sint\<close>, whose addition wraps.
\<close>

type_synonym pixel = "8 word \<times> 8 word \<times> 8 word"
type_synonym frame = "pixel list list"
type_synonym gray = "8 word list list"
type_synonym rect = "32 word \<times> 32 word \<times> 32 word \<times> 32 word"

record http_response =
  raise_for_status :: "exn option"          \<comment> \<open>the exception for an error status, if any\<close>
  iter_content :: "nat list \<times> exn option"   \<comment> \<open>the chunks' sizes, and the exception that
                                                 ended the stream, if any\<close>

record video =
  v_fps :: int
  v_width :: int
  v_height :: int
  v_total_frames :: int      \<comment> \<open>\<open>int(cap.get(cv2.CAP_PROP_FRAME_COUNT))\<close>, as the container reports it\<close>
  v_frames :: "frame list"   \<comment> \<open>the frames \<open>cap.read()\<close> returns before \<open>ret\<close> is false\<close>

record world =
  requests_get :: "json \<Rightarrow> exn + http_response"
  NamedTemporaryFile :: "exn + string"          \<comment> \<open>the new file's name without its suffix\<close>
  VideoCapture :: "path \<Rightarrow> video option"         \<comment> \<open>\<open>None\<close> when \<open>isOpened()\<close> is false\<close>
  VideoWriter :: "path \<Rightarrow> int \<Rightarrow> int \<times> int \<Rightarrow> bool"  \<comment> \<open>whether the writer opened its file; the
                                                      constructor does not raise\<close>
  encoded_size :: "frame list \<Rightarrow> nat"            \<comment> \<open>the size of the file holding these frames\<close>
  cvtColor :: "frame \<Rightarrow> exn + gray"
  detectMultiScale :: "gray \<Rightarrow> exn + rect list"
  gaussian :: "frame \<Rightarrow> nat \<Rightarrow> nat \<Rightarrow> pixel"      \<comment> \<open>the pixel at row \<open>i\<close>, column \<open>j\<close> of
                                                      \<open>GaussianBlur(region, (99, 99), 51)\<close>\<close>

subsection \<open>\<open>download_video\<close>\<close>

text \<open>
  The file is created by \<open>NamedTemporaryFile(delete=False, suffix='.mp4')\<close> before the
  body is copied, so it is on disk also when the copy is cut short by an exception. The
  \<open>except\<close> clause of \<open>download_video\<close> re-raises.
\<close>

definition download_video :: "world \<Rightarrow> disk \<Rightarrow> json \<Rightarrow> disk \<times> (exn + path)" where
  "download_video w d url =
     (case requests_get w url of
        Inl e \<Rightarrow> (d, Inl e)
      | Inr response \<Rightarrow>
          (case raise_for_status response of
             Some e \<Rightarrow> (d, Inl e)
           | None \<Rightarrow>
               (case NamedTemporaryFile w of
                  Inl e \<Rightarrow> (d, Inl e)
                | Inr stem \<Rightarrow>
                    (let name = stem @ ''.mp4'';
                         d' = d(name \<mapsto> sum_list (fst (iter_content response)))
                     in case snd (iter_content response) of
                          Some e \<Rightarrow> (d', Inl e)
                        | None \<Rightarrow> (d', Inr name)))))"

subsection \<open>\<open>detect_faces_in_frame\<close>\<close>

definition detect_faces_in_frame :: "world \<Rightarrow> frame \<Rightarrow> exn + rect list" where
  "detect_faces_in_frame w frame =
     (case cvtColor w frame of
        Inl e \<Rightarrow> Inl e
      | Inr gray \<Rightarrow> detectMultiScale w gray)"

subsection \<open>Array slices\<close>

text \<open>
  A slice bound of numpy (and of Python): a negative bound counts from the end, and a
  bound beyond either end is clipped.
\<close>

definition slice_bound :: "nat \<Rightarrow> int \<Rightarrow> nat" where
  "slice_bound n i = (if i < 0 then nat (max 0 (i + int n)) else min n (nat i))"

definition py_slice :: "int \<Rightarrow> int \<Rightarrow> 'a list \<Rightarrow> 'a list" where
  "py_slice a b xs =
     (let lo = slice_bound (length xs) a; hi = slice_bound (length xs) b
      in take (hi - lo) (drop lo xs))"

text \<open>\<open>xs[a:b] = vs\<close> for an array: \<open>vs\<close> has the length of the slice.\<close>

definition set_slice :: "int \<Rightarrow> int \<Rightarrow> 'a list \<Rightarrow> 'a list \<Rightarrow> 'a list" where
  "set_slice a b xs vs =
     (let lo = slice_bound (length xs) a; hi = slice_bound (length xs) b
      in take lo xs @ vs @ drop (max lo hi) xs)"

text \<open>
  \<open>frame[y:y+h, x:x+w]\<close>, read and written. The sums \<open>y + h\<close> and \<open>x + w\<close> are sums
  of \<open>int32\<close> and wrap; the bounds of the slices are their signed values.
\<close>

definition region :: "rect \<Rightarrow> frame \<Rightarrow> frame" where
  "region r f =
     (case r of (x, y, w, h) \<Rightarrow>
        map (py_slice (sint x) (sint (x + w))) (py_slice (sint y) (sint (y + h)) f))"

definition set_region :: "rect \<Rightarrow> frame \<Rightarrow> frame \<Rightarrow> frame" where
  "set_region r f new =
     (case r of (x, y, w, h) \<Rightarrow>
        set_slice (sint y) (sint (y + h)) f
          (map (\<lambda>(row, vs). set_slice (sint x) (sint (x + w)) row vs)
               (zip (py_slice (sint y) (sint (y + h)) f) new)))"

text \<open>
  \<open>cv2.GaussianBlur\<close> returns a new array of the size of its argument and raises for an
  empty one (the text of that error stands for OpenCV's own).
\<close>

definition GaussianBlur :: "world \<Rightarrow> frame \<Rightarrow> exn + frame" where
  "GaussianBlur w src =
     (if concat src = [] then Inl (LibraryError ''GaussianBlur: empty source'')
      else Inr (map (\<lambda>i. map (gaussian w src i) [0..<length (src ! i)]) [0..<length src]))"

subsection \<open>\<open>apply_face_blur\<close>\<close>

text \<open>The loop over the faces, on the value of \<open>blurred_frame\<close>.\<close>

fun blur_faces :: "world \<Rightarrow> rect list \<Rightarrow> frame \<Rightarrow> exn + frame" where
  "blur_faces w [] blurred_frame = Inr blurred_frame"
| "blur_faces w (r # faces) blurred_frame =
     (case GaussianBlur w (region r blurred_frame) of
        Inl e \<Rightarrow> Inl e
      | Inr blurred_face \<Rightarrow> blur_faces w faces (set_region r blurred_frame blurred_face))"

definition apply_face_blur :: "world \<Rightarrow> frame \<Rightarrow> rect list \<Rightarrow> exn + frame" where
  "apply_face_blur w frame faces = blur_faces w faces frame"

text \<open>
  The same function on a store of arrays, where an array is its index in the list:
  \<open>frame.copy()\<close> and \<open>GaussianBlur\<close> allocate, the slice \<open>face_region\<close> is a view of
  \<open>blurred_frame\<close> (it reads the array at \<open>b\<close>), and the slice assignment writes to
  the array at \<open>b\<close>. The store is returned also when an exception ends the call.
\<close>

type_synonym heap = "frame list"

fun blur_faces_heap :: "world \<Rightarrow> rect list \<Rightarrow> nat \<Rightarrow> heap \<Rightarrow> heap \<times> exn option" where
  "blur_faces_heap w [] b hp = (hp, None)"
| "blur_faces_heap w (r # faces) b hp =
     (case GaussianBlur w (region r (hp ! b)) of
        Inl e \<Rightarrow> (hp, Some e)
      | Inr blurred_face \<Rightarrow>
          (let hp1 = hp @ [blurred_face];
               hp2 = hp1[b := set_region r (hp1 ! b) (hp1 ! length hp)]
           in blur_faces_heap w faces b hp2))"

definition apply_face_blur_heap :: "world \<Rightarrow> heap \<Rightarrow> nat \<Rightarrow> rect list \<Rightarrow> heap \<times> (exn + nat)" where
  "apply_face_blur_heap w hp frame faces =
     (let blurred_frame = length hp;
          hp1 = hp @ [hp ! frame];
          (hp2, err) = blur_faces_heap w faces blurred_frame hp1
      in (hp2, case err of Some e \<Rightarrow> Inl e | None \<Rightarrow> Inr blurred_frame))"

subsection \<open>\<open>process_video\<close>\<close>

text \<open>
  The variables of the loop are \<open>frame_count\<close> and \<open>faces_found\<close>; the two lists log
  the frames passed to \<open>detect_faces_in_frame\<close> and to \<open>out.write\<close>.
\<close>

record loop_state =
  frame_count :: int
  faces_found :: int
  detect_calls :: "frame list"
  write_calls :: "frame list"

definition init_state :: loop_state where
  "init_state = \<lparr>frame_count = 0, faces_found = 0, detect_calls = [], write_calls = []\<rparr>"

text \<open>
  One iteration per frame that \<open>cap.read()\<close> returns. The progress line divides by
  \<open>total_frames\<close> every thirtieth frame. The result is the state where the loop
  stopped, and the exception that stopped it, if any.
\<close>

fun frame_loop :: "world \<Rightarrow> int \<Rightarrow> frame list \<Rightarrow> loop_state \<Rightarrow> loop_state \<times> exn option" where
  "frame_loop w total_frames [] st = (st, None)"
| "frame_loop w total_frames (frame # rest) st =
     (let st1 = st\<lparr>frame_count := frame_count st + 1,
                    detect_calls := detect_calls st @ [frame]\<rparr>
      in case detect_faces_in_frame w frame of
           Inl e \<Rightarrow> (st1, Some e)
         | Inr faces \<Rightarrow>
             (let st2 = (if length faces > 0
                         then st1\<lparr>faces_found := faces_found st1 + int (length faces)\<rparr>
                         else st1)
              in case (if length faces > 0 then apply_face_blur w frame faces else Inr frame) of
                   Inl e \<Rightarrow> (st2, Some e)
                 | Inr frame' \<Rightarrow>
                     (let st3 = st2\<lparr>write_calls := write_calls st2 @ [frame']\<rparr>
                      in if frame_count st3 mod 30 = 0 \<and> total_frames = 0
                         then (st3, Some ZeroDivisionError)
                         else frame_loop w total_frames rest st3)))"

record run =
  run_disk :: disk
  run_state :: loop_state
  run_video :: "frame list option"   \<comment> \<open>the frames in the output video, \<open>None\<close> when there is
                                          no output video\<close>
  run_result :: "exn + bool \<times> int"

text \<open>
  The body of the \<open>try\<close>. The writer's file is on disk from the moment the writer
  opens, whatever happens afterwards, and holds the frames passed to \<open>out.write\<close>. A
  writer that has not opened writes nothing: \<open>out.write\<close> returns without an error and
  there is no output video. The source never asks the writer whether it has opened.
\<close>

definition process_video_try :: "world \<Rightarrow> disk \<Rightarrow> path \<Rightarrow> path \<Rightarrow> run" where
  "process_video_try w d input_path output_path =
     (case VideoCapture w input_path of
        None \<Rightarrow> \<lparr>run_disk = d, run_state = init_state, run_video = None,
                 run_result = Inl (Exception ''Could not open video file'')\<rparr>
      | Some cap \<Rightarrow>
          (let opened = VideoWriter w output_path (v_fps cap) (v_width cap, v_height cap);
               (st, err) = frame_loop w (v_total_frames cap) (v_frames cap) init_state;
               d' = (if opened then d(output_path \<mapsto> encoded_size w (write_calls st)) else d)
           in \<lparr>run_disk = d', run_state = st,
               run_video = (if opened then Some (write_calls st) else None),
               run_result = (case err of Some e \<Rightarrow> Inl e | None \<Rightarrow> Inr (True, faces_found st))\<rparr>))"

text \<open>The whole function: \<open>except Exception\<close> turns every exception into \<open>(False, 0)\<close>.\<close>

definition process_video :: "world \<Rightarrow> disk \<Rightarrow> path \<Rightarrow> path \<Rightarrow> disk \<times> (bool \<times> int)" where
  "process_video w d input_path output_path =
     (let r = process_video_try w d input_path output_path
      in (run_disk r, case run_result r of Inl e \<Rightarrow> (False, 0) | Inr res \<Rightarrow> res))"

subsection \<open>\<open>blur_video\<close>, the handler of \<open>POST /blur\<close>\<close>

datatype body =
    Failure string                    \<comment> \<open>\<open>{success: False, error}\<close>\<close>
  | Success int path nat string       \<comment> \<open>\<open>{success: True, facesFound, outputPath, fileSize, message}\<close>\<close>

record response =
  status :: nat
  body :: body

datatype action = Download json | Process path path | GetSize path | Remove path

record outcome =
  resp :: response
  disk_after :: disk
  actions :: "action list"

definition failure :: "nat \<Rightarrow> string \<Rightarrow> disk \<Rightarrow> action list \<Rightarrow> outcome" where
  "failure code msg d acts =
     \<lparr>resp = \<lparr>status = code, body = Failure msg\<rparr>, disk_after = d, actions = acts\<rparr>"

text \<open>The handler once \<open>video_url\<close> is known.\<close>

definition blur_url :: "world \<Rightarrow> disk \<Rightarrow> json \<Rightarrow> outcome" where
  "blur_url w d video_url =
     (case download_video w d video_url of
        (d1, Inl e) \<Rightarrow> failure 500 (py_str e) d1 [Download video_url]
      | (d1, Inr input_path) \<Rightarrow>
          (let output_path = py_replace input_path ''.mp4'' ''_blurred.mp4'';
               acts = [Download video_url, Process input_path output_path]
           in case process_video w d1 input_path output_path of
                (d2, (success, found)) \<Rightarrow>
                  if \<not> success then failure 500 ''Failed to process video'' d2 acts
                  else (case getsize d2 output_path of
                          Inl e \<Rightarrow> failure 500 (py_str e) d2 (acts @ [GetSize output_path])
                        | Inr file_size \<Rightarrow>
                            \<lparr>resp = \<lparr>status = 200,
                                     body = Success found output_path file_size
                                              (''Blurred '' @ str_int found @ '' faces in video'')\<rparr>,
                             disk_after = remove_quietly d2 input_path,
                             actions = acts @ [GetSize output_path, Remove input_path]\<rparr>)))"

text \<open>
  The request is what \<open>request.get_json()\<close> does: it raises or returns a value,
  \<open>JNull\<close> for no body.
\<close>

definition blur_video :: "world \<Rightarrow> disk \<Rightarrow> exn + json \<Rightarrow> outcome" where
  "blur_video w d request =
     (case request of
        Inl e \<Rightarrow> failure 500 (py_str e) d []
      | Inr data \<Rightarrow>
          if \<not> truthy data then failure 400 ''Missing videoUrl parameter'' d []
          else (case py_in ''videoUrl'' data of
                  Inl e \<Rightarrow> failure 500 (py_str e) d []
                | Inr False \<Rightarrow> failure 400 ''Missing videoUrl parameter'' d []
                | Inr True \<Rightarrow>
                    (case py_getitem data ''videoUrl'' of
                       Inl e \<Rightarrow> failure 500 (py_str e) d []
                     | Inr video_url \<Rightarrow> blur_url w d video_url)))"

subsection \<open>Notions used to state the properties\<close>

text \<open>The frames of the input video, none when it does not open.\<close>

definition input_frames :: "world \<Rightarrow> path \<Rightarrow> frame list" where
  "input_frames w p = (case VideoCapture w p of None \<Rightarrow> [] | Some cap \<Rightarrow> v_frames cap)"

text \<open>The writer opens the output file for the properties of the input video.\<close>

definition writer_opens :: "world \<Rightarrow> path \<Rightarrow> path \<Rightarrow> bool" where
  "writer_opens w input_path output_path =
     (case VideoCapture w input_path of
        None \<Rightarrow> False
      | Some cap \<Rightarrow> VideoWriter w output_path (v_fps cap) (v_width cap, v_height cap))"

text \<open>Detection followed by blurring, on one frame and with nothing else as input.\<close>

definition detect_then_blur :: "world \<Rightarrow> frame \<Rightarrow> exn + frame" where
  "detect_then_blur w frame =
     (case detect_faces_in_frame w frame of
        Inl e \<Rightarrow> Inl e
      | Inr faces \<Rightarrow> apply_face_blur w frame faces)"

text \<open>The faces detected in a frame, none when the detection raises.\<close>

definition faces_in :: "world \<Rightarrow> frame \<Rightarrow> rect list" where
  "faces_in w frame = (case detect_faces_in_frame w frame of Inl e \<Rightarrow> [] | Inr faces \<Rightarrow> faces)"

text \<open>
  The pixel at row \<open>i\<close> and column \<open>j\<close> of a frame lies in the rectangle, and in one of
  the rectangles of a list.
\<close>

definition in_rect :: "rect \<Rightarrow> nat \<Rightarrow> nat \<Rightarrow> bool" where
  "in_rect r i j =
     (case r of (x, y, w, h) \<Rightarrow>
        sint y \<le> int i \<and> int i < sint y + sint h \<and> sint x \<le> int j \<and> int j < sint x + sint w)"

definition covered :: "rect list \<Rightarrow> nat \<Rightarrow> nat \<Rightarrow> bool" where
  "covered faces i j = (\<exists>r \<in> set faces. in_rect r i j)"

text \<open>A rectangle with its corner and its size not negative.\<close>

definition valid_rect :: "rect \<Rightarrow> bool" where
  "valid_rect r =
     (case r of (x, y, w, h) \<Rightarrow> 0 \<le> sint x \<and> 0 \<le> sint y \<and> 0 \<le> sint w \<and> 0 \<le> sint h)"

text \<open>The height and the width of an OpenCV array are C integers.\<close>

definition frame_fits :: "frame \<Rightarrow> bool" where
  "frame_fits f = (length f < 2 ^ 31 \<and> (\<forall>row \<in> set f. length row < 2 ^ 31))"

text \<open>
  \<open>sep.join(parts)\<close>. A string is \<open>join sep parts\<close> with no \<open>sep\<close> inside a part when
  the parts are what lies between the occurrences of \<open>sep\<close> in it; replacing every
  occurrence of \<open>sep\<close> by \<open>new\<close> then gives \<open>join new parts\<close>.
\<close>

fun join :: "string \<Rightarrow> string list \<Rightarrow> string" where
  "join sep [] = []"
| "join sep [s] = s"
| "join sep (s # t # ts) = s @ sep @ join sep (t # ts)"

subsection \<open>Concrete inputs\<close>

definition sample_frame :: frame where
  "sample_frame = [[(1, 2, 3), (4, 5, 6), (7, 8, 9), (1, 1, 1)]]"

text \<open>A world where everything works: a one-frame video with one face at its left end.\<close>

definition sample_world :: world where
  "sample_world =
     \<lparr>requests_get = (\<lambda>url. Inr \<lparr>raise_for_status = None, iter_content = ([8192, 100], None)\<rparr>),
      NamedTemporaryFile = Inr ''/tmp/tmpab12cd'',
      VideoCapture = (\<lambda>p. Some \<lparr>v_fps = 30, v_width = 4, v_height = 1, v_total_frames = 1,
                                 v_frames = [sample_frame]\<rparr>),
      VideoWriter = (\<lambda>p fps size. True),
      encoded_size = (\<lambda>fs. 100 * length fs),
      cvtColor = (\<lambda>f. Inr (map (map (\<lambda>(b, g, r). g)) f)),
      detectMultiScale = (\<lambda>g. Inr [(0, 0, 1, 1)]),
      gaussian = (\<lambda>src i j. (0, 0, 0))\<rparr>"

text \<open>The server of the video cannot be reached.\<close>

definition offline_world :: world where
  "offline_world = sample_world\<lparr>requests_get := (\<lambda>url. Inl (LibraryError ''Connection refused''))\<rparr>"

text \<open>The downloaded file is not a video.\<close>

definition unreadable_world :: world where
  "unreadable_world = sample_world\<lparr>VideoCapture := (\<lambda>p. None)\<rparr>"

text \<open>
  A valid video at 0.5 frames per second: \<open>int(cap.get(cv2.CAP_PROP_FPS))\<close> is 0, and the
  writer does not open its file for a frame rate of 0.
\<close>

definition no_writer_world :: world where
  "no_writer_world =
     sample_world\<lparr>VideoCapture := (\<lambda>p. Some \<lparr>v_fps = 0, v_width = 4, v_height = 1,
                                               v_total_frames = 1, v_frames = [sample_frame]\<rparr>),
                  VideoWriter := (\<lambda>p fps size. 0 < fps)\<rparr>"

text \<open>The cascade file was not found, so the classifier is empty and detection raises.\<close>

definition no_cascade_world :: world where
  "no_cascade_world =
     sample_world\<lparr>detectMultiScale := (\<lambda>g. Inl (LibraryError ''detectMultiScale: empty classifier''))\<rparr>"

definition sample_items :: "(string \<times> json) list" where
  "sample_items = [(''videoUrl'', JStr ''http://example.org/v.mp4'')]"

definition sample_request :: "exn + json" where
  "sample_request = Inr (JDict sample_items)"

text \<open>
  A video of four frames and a classifier whose answer depends on the frame: a face of
  one pixel wherever the green channel of the first row is 255. The first and the last
  frame are equal.
\<close>

definition frame_a :: frame where
  "frame_a = [[(1, 255, 3), (4, 5, 6), (7, 8, 9), (1, 1, 1)]]"

definition frame_b :: frame where
  "frame_b = [[(9, 9, 9), (8, 8, 8), (7, 7, 7), (6, 6, 6)]]"

definition frame_c :: frame where
  "frame_c = [[(1, 1, 1), (2, 255, 2), (3, 3, 3), (4, 255, 4)]]"

definition bright_columns :: "gray \<Rightarrow> rect list" where
  "bright_columns g =
     (case g of
        [] \<Rightarrow> []
      | row # rows \<Rightarrow>
          map (\<lambda>(j, v). (of_nat j, 0, 1, 1)) (filter (\<lambda>(j, v). v = 255) (enumerate 0 row)))"

definition four_frame_world :: world where
  "four_frame_world =
     sample_world\<lparr>VideoCapture := (\<lambda>p. Some \<lparr>v_fps = 30, v_width = 4, v_height = 1,
                                               v_total_frames = 4,
                                               v_frames = [frame_a, frame_b, frame_c, frame_a]\<rparr>),
                  detectMultiScale := (\<lambda>g. Inr (bright_columns g))\<rparr>"

text \<open>The directory for temporary files has \<open>.mp4\<close> in its name.\<close>

definition nested_world :: world where
  "nested_world = sample_world\<lparr>NamedTemporaryFile := Inr ''/tmp/a.mp4.d/tmpab12cd''\<rparr>"

section \<open>Properties\<close>

subsection \<open>Evaluation of the concrete inputs\<close>

lemmas world_defs =
  sample_world_def offline_world_def unreadable_world_def no_writer_world_def
  no_cascade_world_def sample_frame_def sample_request_def sample_items_def
  four_frame_world_def nested_world_def frame_a_def frame_b_def frame_c_def bright_columns_def

lemmas video_defs =
  process_video_def process_video_try_def init_state_def Let_def detect_faces_in_frame_def
  apply_face_blur_def GaussianBlur_def region_def set_region_def py_slice_def set_slice_def
  slice_bound_def input_frames_def

lemmas handler_defs =
  blur_video_def blur_url_def download_video_def py_replace_def failure_def getsize_def
  remove_quietly_def str_int_def

subsection \<open>The frame loop\<close>

text \<open>A loop that ends without an exception has gone through every frame.\<close>

lemma frame_loop_ok:
  "frame_loop w t fs st = (st', None) \<Longrightarrow>
     frame_count st' = frame_count st + int (length fs) \<and>
     detect_calls st' = detect_calls st @ fs \<and>
     map Inr (write_calls st') = map Inr (write_calls st) @ map (detect_then_blur w) fs \<and>
     faces_found st' = faces_found st + (\<Sum>f\<leftarrow>fs. int (length (faces_in w f)))"
proof (induction fs arbitrary: st)
  case Nil
  then show ?case by simp
next
  case (Cons f fs)
  then show ?case
    by (auto simp: Let_def detect_then_blur_def faces_in_def apply_face_blur_def
             split: sum.splits if_splits)
qed

text \<open>
  Wherever the loop stops, it has read \<open>k\<close> frames, passed each of them to the
  detection, and written the results for the first \<open>m\<close> of them, where \<open>m\<close> is
  \<open>k\<close> or \<open>k - 1\<close>.
\<close>

lemma frame_loop_any:
  "frame_loop w t fs st = (st', err) \<Longrightarrow>
     \<exists>k m. k \<le> length fs \<and> m \<le> k \<and> k \<le> m + 1 \<and>
       frame_count st' = frame_count st + int k \<and>
       detect_calls st' = detect_calls st @ take k fs \<and>
       map Inr (write_calls st') = map Inr (write_calls st) @ map (detect_then_blur w) (take m fs)"
proof (induction fs arbitrary: st)
  case Nil
  then show ?case by simp
next
  case (Cons f fs)
  let ?st1 = "st\<lparr>frame_count := frame_count st + 1, detect_calls := detect_calls st @ [f]\<rparr>"
  show ?case
  proof (cases "detect_faces_in_frame w f")
    case (Inl e)
    with Cons.prems show ?thesis
      by (intro exI[of _ 1] exI[of _ 0]) (auto simp: Let_def)
  next
    case (Inr faces)
    let ?st2 = "if length faces > 0
                then ?st1\<lparr>faces_found := faces_found ?st1 + int (length faces)\<rparr> else ?st1"
    have dtb: "detect_then_blur w f = (if length faces > 0 then apply_face_blur w f faces else Inr f)"
      using Inr by (simp add: detect_then_blur_def apply_face_blur_def)
    show ?thesis
    proof (cases "detect_then_blur w f")
      case (Inl e)
      with dtb have ab: "(if length faces > 0 then apply_face_blur w f faces else Inr f) = Inl e"
        by simp
      with Cons.prems Inr show ?thesis
        by (intro exI[of _ 1] exI[of _ 0]) (auto simp: Let_def split: if_splits)
    next
      case out: (Inr f')
      let ?st3 = "?st2\<lparr>write_calls := write_calls ?st2 @ [f']\<rparr>"
      from out dtb have ab: "(if length faces > 0 then apply_face_blur w f faces else Inr f) = Inr f'"
        by simp
      show ?thesis
      proof (cases "frame_count ?st3 mod 30 = 0 \<and> t = 0")
        case True
        with Cons.prems Inr ab out show ?thesis
          by (intro exI[of _ 1] exI[of _ 1]) (auto simp: Let_def split: if_splits)
      next
        case False
        with Cons.prems Inr ab have "frame_loop w t fs ?st3 = (st', err)"
          by (auto simp: Let_def split: if_splits)
        from Cons.IH[OF this] obtain k m where km: "k \<le> length fs" "m \<le> k" "k \<le> m + 1"
          "frame_count st' = frame_count ?st3 + int k"
          "detect_calls st' = detect_calls ?st3 @ take k fs"
          "map Inr (write_calls st') = map Inr (write_calls ?st3) @ map (detect_then_blur w) (take m fs)"
          by blast
        show ?thesis
          using km out by (intro exI[of _ "Suc k"] exI[of _ "Suc m"]) (auto split: if_splits)
      qed
    qed
  qed
qed

text \<open>The two lemmas for a whole run of the body of \<open>process_video\<close>.\<close>

lemma run_ok:
  assumes "run_result (process_video_try w d inp outp) = Inr res"
  shows "frame_count (run_state (process_video_try w d inp outp)) = int (length (input_frames w inp))"
    and "detect_calls (run_state (process_video_try w d inp outp)) = input_frames w inp"
    and "map Inr (write_calls (run_state (process_video_try w d inp outp)))
           = map (detect_then_blur w) (input_frames w inp)"
    and "res = (True, \<Sum>f\<leftarrow>input_frames w inp. int (length (faces_in w f)))"
proof -
  from assms obtain cap where cap: "VideoCapture w inp = Some cap"
    by (cases "VideoCapture w inp") (auto simp: process_video_try_def)
  obtain st err where loop: "frame_loop w (v_total_frames cap) (v_frames cap) init_state = (st, err)"
    by (cases "frame_loop w (v_total_frames cap) (v_frames cap) init_state")
  from assms cap loop have err: "err = None" and res: "res = (True, faces_found st)"
    by (auto simp: process_video_try_def Let_def split: option.splits)
  have st: "run_state (process_video_try w d inp outp) = st"
    using cap loop by (simp add: process_video_try_def Let_def)
  have frames: "input_frames w inp = v_frames cap"
    using cap by (simp add: input_frames_def)
  note ok = frame_loop_ok[OF loop[unfolded err]]
  show "frame_count (run_state (process_video_try w d inp outp)) = int (length (input_frames w inp))"
    using ok by (simp add: st frames init_state_def)
  show "detect_calls (run_state (process_video_try w d inp outp)) = input_frames w inp"
    using ok by (simp add: st frames init_state_def)
  show "map Inr (write_calls (run_state (process_video_try w d inp outp)))
           = map (detect_then_blur w) (input_frames w inp)"
    using ok by (simp add: st frames init_state_def)
  show "res = (True, \<Sum>f\<leftarrow>input_frames w inp. int (length (faces_in w f)))"
    using ok by (simp add: res frames init_state_def)
qed

lemma run_any:
  "\<exists>k m. k \<le> length (input_frames w inp) \<and> m \<le> k \<and> k \<le> m + 1 \<and>
     frame_count (run_state (process_video_try w d inp outp)) = int k \<and>
     detect_calls (run_state (process_video_try w d inp outp)) = take k (input_frames w inp) \<and>
     map Inr (write_calls (run_state (process_video_try w d inp outp)))
       = map (detect_then_blur w) (take m (input_frames w inp))"
proof (cases "VideoCapture w inp")
  case None
  then show ?thesis
    by (intro exI[of _ 0]) (simp add: process_video_try_def init_state_def)
next
  case (Some cap)
  obtain st err where loop: "frame_loop w (v_total_frames cap) (v_frames cap) init_state = (st, err)"
    by (cases "frame_loop w (v_total_frames cap) (v_frames cap) init_state")
  have st: "run_state (process_video_try w d inp outp) = st"
    using Some loop by (simp add: process_video_try_def Let_def)
  have frames: "input_frames w inp = v_frames cap"
    using Some by (simp add: input_frames_def)
  from frame_loop_any[OF loop] show ?thesis
    by (simp add: st frames init_state_def)
qed

lemma process_video_success:
  "snd (process_video w d inp outp) = (True, n) \<Longrightarrow>
     \<exists>res. run_result (process_video_try w d inp outp) = Inr res"
  by (cases "run_result (process_video_try w d inp outp)") (auto simp: process_video_def Let_def)



subsection \<open>Claims about \<open>process_video\<close>\<close>




text \<open>
  C5. The loop keeps no state from one frame to the next that reaches the output: the
  \<open>i\<close>-th frame written is \<open>detect_then_blur\<close> of the \<open>i\<close>-th input frame, a function of
  that frame and of the fixed libraries alone, so the frames written are the pointwise
  image of the input frames (all of them on a run that returns success). The list of
  faces of a frame is not part of the loop's state.
\<close>

theorem process_video_pointwise:
  "map Inr (write_calls (run_state (process_video_try w d inp outp)))
     = map (detect_then_blur w)
         (take (length (write_calls (run_state (process_video_try w d inp outp)))) (input_frames w inp)) \<and>
   (fst (snd (process_video w d inp outp)) \<longrightarrow>
      map Inr (write_calls (run_state (process_video_try w d inp outp)))
        = map (detect_then_blur w) (input_frames w inp))"
proof (intro conjI impI)
  from run_any[of w inp d outp] obtain k m where km: "k \<le> length (input_frames w inp)" "m \<le> k"
    and wr: "map Inr (write_calls (run_state (process_video_try w d inp outp)))
       = map (detect_then_blur w) (take m (input_frames w inp))"
    by blast
  have "length (map Inr (write_calls (run_state (process_video_try w d inp outp))) :: (exn + frame) list)
          = length (map (detect_then_blur w) (take m (input_frames w inp)))"
    by (simp only: wr)
  with km have "length (write_calls (run_state (process_video_try w d inp outp))) = m"
    by simp
  with wr show "map Inr (write_calls (run_state (process_video_try w d inp outp)))
     = map (detect_then_blur w)
         (take (length (write_calls (run_state (process_video_try w d inp outp)))) (input_frames w inp))"
    by simp
next
  assume "fst (snd (process_video w d inp outp))"
  then obtain res where res: "run_result (process_video_try w d inp outp) = Inr res"
    by (cases "run_result (process_video_try w d inp outp)") (auto simp: process_video_def Let_def)
  show "map Inr (write_calls (run_state (process_video_try w d inp outp)))
        = map (detect_then_blur w) (input_frames w inp)"
    by (rule run_ok(3)[OF res])
qed

theorem process_video_pointwise_witness:
  "fst (snd (process_video four_frame_world Map.empty ''in.mp4'' ''out.mp4'')) \<and>
   input_frames four_frame_world ''in.mp4'' = [frame_a, frame_b, frame_c, frame_a] \<and>
   map Inr (write_calls (run_state (process_video_try four_frame_world Map.empty ''in.mp4'' ''out.mp4'')))
     = [detect_then_blur four_frame_world frame_a, detect_then_blur four_frame_world frame_b,
        detect_then_blur four_frame_world frame_c, detect_then_blur four_frame_world frame_a] \<and>
   write_calls (run_state (process_video_try four_frame_world Map.empty ''in.mp4'' ''out.mp4''))
     = [[[(0, 0, 0), (4, 5, 6), (7, 8, 9), (1, 1, 1)]],
        frame_b,
        [[(1, 1, 1), (0, 0, 0), (3, 3, 3), (0, 0, 0)]],
        [[(0, 0, 0), (4, 5, 6), (7, 8, 9), (1, 1, 1)]]]"
proof -
  have ok: "fst (snd (process_video four_frame_world Map.empty ''in.mp4'' ''out.mp4''))"
    by (simp add: video_defs world_defs)
  have frames: "input_frames four_frame_world ''in.mp4'' = [frame_a, frame_b, frame_c, frame_a]"
    by (simp add: input_frames_def four_frame_world_def sample_world_def)
  have written: "write_calls (run_state (process_video_try four_frame_world Map.empty ''in.mp4'' ''out.mp4''))
     = [[[(0, 0, 0), (4, 5, 6), (7, 8, 9), (1, 1, 1)]],
        frame_b,
        [[(1, 1, 1), (0, 0, 0), (3, 3, 3), (0, 0, 0)]],
        [[(0, 0, 0), (4, 5, 6), (7, 8, 9), (1, 1, 1)]]]"
    by (simp add: video_defs world_defs)
  from process_video_pointwise[of four_frame_world Map.empty "''in.mp4''" "''out.mp4''", THEN conjunct2]
       ok frames
  have "map Inr (write_calls (run_state (process_video_try four_frame_world Map.empty ''in.mp4'' ''out.mp4'')))
     = [detect_then_blur four_frame_world frame_a, detect_then_blur four_frame_world frame_b,
        detect_then_blur four_frame_world frame_c, detect_then_blur four_frame_world frame_a]"
    by simp
  with ok frames written show ?thesis by simp
qed



subsection \<open>The handler\<close>

text \<open>A body that is a dict with the key \<open>videoUrl\<close> reaches the download.\<close>

lemma blur_video_dict:
  assumes "map_of items ''videoUrl'' = Some url"
  shows "blur_video w d (Inr (JDict items)) = blur_url w d url"
proof -
  from assms have "(''videoUrl'', url) \<in> set items"
    by (rule map_of_SomeD)
  then have "items \<noteq> []" and "''videoUrl'' \<in> fst ` set items"
    by force+
  with assms show ?thesis
    by (simp add: blur_video_def)
qed

lemma download_video_suffix:
  "download_video w d url = (d1, Inr p) \<Longrightarrow> suffix ''.mp4'' p"
  by (auto simp: download_video_def Let_def suffix_def split: sum.splits option.splits)

lemma blur_url_success:
  assumes "body (resp (blur_url w d url)) = Success n outp sz msg"
  shows "\<exists>d1 p. download_video w d url = (d1, Inr p) \<and> outp = py_replace p ''.mp4'' ''_blurred.mp4''"
proof -
  obtain d1 r where dl: "download_video w d url = (d1, r)"
    by (cases "download_video w d url")
  show ?thesis
  proof (cases r)
    case (Inl e)
    with assms dl show ?thesis
      by (simp add: blur_url_def failure_def)
  next
    case (Inr p)
    obtain d2 ok k where pv: "process_video w d1 p (py_replace p ''.mp4'' ''_blurred.mp4'') = (d2, (ok, k))"
      by (cases "process_video w d1 p (py_replace p ''.mp4'' ''_blurred.mp4'')") auto
    from assms dl Inr pv have "outp = py_replace p ''.mp4'' ''_blurred.mp4''"
      by (auto simp: blur_url_def failure_def Let_def split: if_splits sum.splits)
    with dl Inr show ?thesis by simp
  qed
qed

lemma faces_sum_nonneg: "0 \<le> (\<Sum>f\<leftarrow>fs. int (length (faces_in w f)))"
  by (induction fs) auto

lemma process_video_faces_nonneg:
  assumes "process_video w d inp outp = (d', (True, n))"
  shows "0 \<le> n"
proof -
  from assms have "snd (process_video w d inp outp) = (True, n)"
    by simp
  then obtain res where res: "run_result (process_video_try w d inp outp) = Inr res"
    by (cases "run_result (process_video_try w d inp outp)") (auto simp: process_video_def Let_def)
  with assms have "res = (True, n)"
    by (simp add: process_video_def Let_def)
  with run_ok(4)[OF res] show ?thesis
    by (simp add: faces_sum_nonneg)
qed

subsection \<open>Replacing every occurrence\<close>

text \<open>
  An occurrence of \<open>.mp4\<close> cannot start inside a part without \<open>.mp4\<close> and run into
  the separator that follows, since the dot is its first character only.
\<close>

lemma not_prefix_mp4:
  assumes "\<not> sublist ''.mp4'' (c # cs)"
  shows "\<not> prefix ''.mp4'' (c # cs @ ''.mp4'' @ rest)"
proof
  assume pre: "prefix ''.mp4'' (c # cs @ ''.mp4'' @ rest)"
  show False
  proof (cases cs)
    case Nil
    with pre show False by simp
  next
    case c1: (Cons a as)
    show False
    proof (cases as)
      case Nil
      with pre c1 show False by simp
    next
      case c2: (Cons b bs)
      show False
      proof (cases bs)
        case Nil
        with pre c1 c2 show False by simp
      next
        case c3: (Cons e es)
        with pre c1 c2 have "prefix ''.mp4'' (c # cs)"
          by simp
        then have "sublist ''.mp4'' (c # cs)"
          by (rule prefix_imp_sublist)
        with assms show False by simp
      qed
    qed
  qed
qed

lemma replace_scan_skip:
  "\<not> prefix old (c # cs) \<Longrightarrow> replace_scan old new (c # cs) = c # replace_scan old new cs"
  by simp

lemma replace_scan_part:
  "\<not> sublist ''.mp4'' part \<Longrightarrow>
     replace_scan ''.mp4'' new (part @ ''.mp4'' @ rest) = part @ new @ replace_scan ''.mp4'' new rest"
proof (induction part)
  case Nil
  show ?case by simp
next
  case (Cons c cs)
  from Cons.prems have "\<not> sublist ''.mp4'' cs"
    by (auto simp: sublist_Cons_right)
  with Cons.IH have ih: "replace_scan ''.mp4'' new (cs @ ''.mp4'' @ rest)
      = cs @ new @ replace_scan ''.mp4'' new rest"
    by simp
  have np: "\<not> prefix ''.mp4'' (c # cs @ ''.mp4'' @ rest)"
    using Cons.prems by (rule not_prefix_mp4)
  have "replace_scan ''.mp4'' new (c # cs @ ''.mp4'' @ rest)
          = c # replace_scan ''.mp4'' new (cs @ ''.mp4'' @ rest)"
    by (rule replace_scan_skip[OF np])
  also have "\<dots> = c # cs @ new @ replace_scan ''.mp4'' new rest"
    by (simp only: ih)
  finally have "replace_scan ''.mp4'' new (c # cs @ ''.mp4'' @ rest)
          = c # cs @ new @ replace_scan ''.mp4'' new rest" .
  then show ?case by simp
qed

lemma replace_scan_none:
  "\<not> sublist ''.mp4'' s \<Longrightarrow> replace_scan ''.mp4'' new s = s"
proof (induction s)
  case Nil
  show ?case by simp
next
  case (Cons c cs)
  from Cons.prems have rest: "\<not> sublist ''.mp4'' cs" and np: "\<not> prefix ''.mp4'' (c # cs)"
    by (auto simp: sublist_Cons_right)
  from Cons.IH[OF rest] show ?case
    by (simp only: replace_scan_skip[OF np])
qed

text \<open>
  The scan replaces every occurrence: between the same parts, each \<open>.mp4\<close> has become
  \<open>new\<close>.
\<close>

lemma replace_scan_join:
  "\<forall>s \<in> set parts. \<not> sublist ''.mp4'' s \<Longrightarrow>
     replace_scan ''.mp4'' new (join ''.mp4'' parts) = join new parts"
proof (induction "''.mp4''" parts rule: join.induct)
  case 1
  show ?case by simp
next
  case (2 s)
  then show ?case by (simp add: replace_scan_none)
next
  case (3 s t ts)
  from "3.prems" have s: "\<not> sublist ''.mp4'' s" and rest: "\<forall>s \<in> set (t # ts). \<not> sublist ''.mp4'' s"
    by simp_all
  from "3.hyps"[OF rest] replace_scan_part[OF s, of new "join ''.mp4'' (t # ts)"]
  show ?case by simp
qed

lemma py_replace_join:
  "\<forall>s \<in> set parts. \<not> sublist ''.mp4'' s \<Longrightarrow>
     py_replace (join ''.mp4'' parts) ''.mp4'' new = join new parts"
  by (simp add: py_replace_def replace_scan_join)

text \<open>Every string is made of such parts.\<close>

lemma join_Cons: "join sep ((c # t) # ts) = c # join sep (t # ts)"
  by (cases ts) simp_all

lemma join_first: "join sep (t # ts) = t @ (case ts of [] \<Rightarrow> [] | u # us \<Rightarrow> sep @ join sep ts)"
  by (cases ts) simp_all

lemma parts_exist:
  "\<exists>parts. parts \<noteq> [] \<and> s = join ''.mp4'' parts \<and> (\<forall>t \<in> set parts. \<not> sublist ''.mp4'' t)"
proof (induction s)
  case Nil
  show ?case by (rule exI[of _ "[[]]"]) simp
next
  case (Cons c cs)
  then obtain t ts where cs: "cs = join ''.mp4'' (t # ts)"
    and free: "\<forall>u \<in> set (t # ts). \<not> sublist ''.mp4'' u"
    by (metis list.exhaust)
  show ?case
  proof (cases "sublist ''.mp4'' (c # t)")
    case False
    with cs free show ?thesis
      by (intro exI[of _ "(c # t) # ts"]) (simp add: join_Cons)
  next
    case True
    with free have "prefix ''.mp4'' (c # t)"
      by (simp add: sublist_Cons_right)
    then obtain t' where t': "c # t = ''.mp4'' @ t'"
      by (auto simp: prefix_def)
    then have "suffix t' t"
      by (auto simp: suffix_def)
    with free have "\<not> sublist ''.mp4'' t'"
      by (metis list.set_intros(1) sublist_order.order_trans suffix_imp_sublist)
    with free have free': "\<forall>u \<in> set ([] # t' # ts). \<not> sublist ''.mp4'' u"
      by simp
    have "c # cs = (c # t) @ (case ts of [] \<Rightarrow> [] | u # us \<Rightarrow> ''.mp4'' @ join ''.mp4'' ts)"
      by (simp add: cs join_first)
    also have "\<dots> = ''.mp4'' @ t' @ (case ts of [] \<Rightarrow> [] | u # us \<Rightarrow> ''.mp4'' @ join ''.mp4'' ts)"
      by (simp only: t' append_assoc)
    also have "\<dots> = join ''.mp4'' ([] # t' # ts)"
      by (simp add: join_first[of _ t'])
    finally have "c # cs = join ''.mp4'' ([] # t' # ts)" .
    with free' show ?thesis
      by (intro exI[of _ "[] # t' # ts"]) simp
  qed
qed

subsection \<open>Claims about \<open>POST /blur\<close>\<close>

text \<open>
  C1, amended. A request that fails during the download is answered with status 500 and
  the body \<open>{success: false, error}\<close> whose \<open>error\<close> is the string of the exception
  that \<open>download_video\<close> raised. A request that fails in \<open>process_video\<close> is answered
  with status 500 and the fixed \<open>error\<close> text \<open>Failed to process video\<close>, whatever the
  exception was.
\<close>

theorem blur_video_failure:
  assumes "map_of items ''videoUrl'' = Some url"
  shows "(\<forall>d1 e. download_video w d url = (d1, Inl e) \<longrightarrow>
            resp (blur_video w d (Inr (JDict items)))
              = \<lparr>status = 500, body = Failure (py_str e)\<rparr>) \<and>
         (\<forall>d1 p e. download_video w d url = (d1, Inr p) \<longrightarrow>
            run_result (process_video_try w d1 p (py_replace p ''.mp4'' ''_blurred.mp4'')) = Inl e \<longrightarrow>
            resp (blur_video w d (Inr (JDict items)))
              = \<lparr>status = 500, body = Failure ''Failed to process video''\<rparr>)"
proof (intro conjI allI impI)
  fix d1 e assume "download_video w d url = (d1, Inl e)"
  then show "resp (blur_video w d (Inr (JDict items))) = \<lparr>status = 500, body = Failure (py_str e)\<rparr>"
    by (simp add: blur_video_dict[OF assms] blur_url_def failure_def)
next
  fix d1 p e
  assume dl: "download_video w d url = (d1, Inr p)"
    and "run_result (process_video_try w d1 p (py_replace p ''.mp4'' ''_blurred.mp4'')) = Inl e"
  then have "snd (process_video w d1 p (py_replace p ''.mp4'' ''_blurred.mp4'')) = (False, 0)"
    by (simp add: process_video_def Let_def)
  then obtain d2 where "process_video w d1 p (py_replace p ''.mp4'' ''_blurred.mp4'') = (d2, (False, 0))"
    by (cases "process_video w d1 p (py_replace p ''.mp4'' ''_blurred.mp4'')") auto
  with dl show "resp (blur_video w d (Inr (JDict items)))
              = \<lparr>status = 500, body = Failure ''Failed to process video''\<rparr>"
    by (simp add: blur_video_dict[OF assms] blur_url_def failure_def Let_def)
qed

theorem blur_video_failure_witness:
  "map_of sample_items ''videoUrl'' = Some (JStr ''http://example.org/v.mp4'') \<and>
   download_video offline_world Map.empty (JStr ''http://example.org/v.mp4'')
     = (Map.empty, Inl (LibraryError ''Connection refused'')) \<and>
   resp (blur_video offline_world Map.empty (Inr (JDict sample_items)))
     = \<lparr>status = 500, body = Failure ''Connection refused''\<rparr> \<and>
   snd (download_video unreadable_world Map.empty (JStr ''http://example.org/v.mp4''))
     = Inr ''/tmp/tmpab12cd.mp4'' \<and>
   resp (blur_video unreadable_world Map.empty (Inr (JDict sample_items)))
     = \<lparr>status = 500, body = Failure ''Failed to process video''\<rparr>"
proof -
  have key: "map_of sample_items ''videoUrl'' = Some (JStr ''http://example.org/v.mp4'')"
    by (simp add: sample_items_def)
  have off: "download_video offline_world Map.empty (JStr ''http://example.org/v.mp4'')
     = (Map.empty, Inl (LibraryError ''Connection refused''))"
    by (simp add: download_video_def world_defs)
  have dl: "download_video unreadable_world Map.empty (JStr ''http://example.org/v.mp4'')
     = ([''/tmp/tmpab12cd.mp4'' \<mapsto> 8292], Inr ''/tmp/tmpab12cd.mp4'')"
    by (simp add: download_video_def world_defs Let_def)
  have raised: "run_result (process_video_try unreadable_world [''/tmp/tmpab12cd.mp4'' \<mapsto> 8292]
       ''/tmp/tmpab12cd.mp4''
       (py_replace ''/tmp/tmpab12cd.mp4'' ''.mp4'' ''_blurred.mp4''))
     = Inl (Exception ''Could not open video file'')"
    by (simp add: process_video_try_def world_defs)
  from blur_video_failure[OF key, of offline_world Map.empty, THEN conjunct1, rule_format, OF off]
       blur_video_failure[OF key, of unreadable_world Map.empty, THEN conjunct2, rule_format, OF dl raised]
       key off dl
  show ?thesis by simp
qed

text \<open>
  C1 as stated fails for a failure in the processing: the file does not open as a video,
  the exception says so, and the response carries the fixed text instead.
\<close>

theorem blur_video_failure_counterexample:
  "snd (download_video unreadable_world Map.empty (JStr ''http://example.org/v.mp4''))
     = Inr ''/tmp/tmpab12cd.mp4'' \<and>
   run_result (process_video_try unreadable_world
       (fst (download_video unreadable_world Map.empty (JStr ''http://example.org/v.mp4'')))
       ''/tmp/tmpab12cd.mp4'' ''/tmp/tmpab12cd_blurred.mp4'')
     = Inl (Exception ''Could not open video file'') \<and>
   body (resp (blur_video unreadable_world Map.empty sample_request))
     \<noteq> Failure (py_str (Exception ''Could not open video file''))"
  by (simp add: handler_defs video_defs world_defs)

text \<open>
  C2, evaluated where it fails. The downloaded file is not a video: the handler answers
  500 from the early return after \<open>process_video\<close> and the input file is still on disk
  when the request ends. On the successful request the input file is removed and the
  output file stays.
\<close>

theorem blur_video_keeps_input_on_failure:
  "snd (download_video unreadable_world Map.empty (JStr ''http://example.org/v.mp4''))
     = Inr ''/tmp/tmpab12cd.mp4'' \<and>
   resp (blur_video unreadable_world Map.empty sample_request)
     = \<lparr>status = 500, body = Failure ''Failed to process video''\<rparr> \<and>
   disk_after (blur_video unreadable_world Map.empty sample_request) ''/tmp/tmpab12cd.mp4''
     = Some 8292 \<and>
   status (resp (blur_video sample_world Map.empty sample_request)) = 200 \<and>
   disk_after (blur_video sample_world Map.empty sample_request) ''/tmp/tmpab12cd.mp4'' = None \<and>
   disk_after (blur_video sample_world Map.empty sample_request) ''/tmp/tmpab12cd_blurred.mp4''
     = Some 100"
  by (simp add: handler_defs video_defs world_defs)

text \<open>
  C3, evaluated where it fails. The video is valid and plays at 0.5 frames per second:
  the download succeeds and \<open>process_video\<close> returns success with one face found, but
  the writer has not opened the output file and \<open>process_video\<close> has not asked it, so
  reading the size of the output file raises and the handler answers 500. For the same
  video at 30 frames per second the handler answers 200 with \<open>facesFound = 1\<close>.
\<close>

theorem blur_video_no_output_file:
  "snd (download_video no_writer_world Map.empty (JStr ''http://example.org/v.mp4''))
     = Inr ''/tmp/tmpab12cd.mp4'' \<and>
   \<not> writer_opens no_writer_world ''/tmp/tmpab12cd.mp4'' ''/tmp/tmpab12cd_blurred.mp4'' \<and>
   snd (process_video no_writer_world
          (fst (download_video no_writer_world Map.empty (JStr ''http://example.org/v.mp4'')))
          ''/tmp/tmpab12cd.mp4'' ''/tmp/tmpab12cd_blurred.mp4'') = (True, 1) \<and>
   resp (blur_video no_writer_world Map.empty sample_request)
     = \<lparr>status = 500,
        body = Failure (py_str (FileNotFoundError ''/tmp/tmpab12cd_blurred.mp4''))\<rparr> \<and>
   resp (blur_video sample_world Map.empty sample_request)
     = \<lparr>status = 200,
        body = Success 1 ''/tmp/tmpab12cd_blurred.mp4'' 100 ''Blurred 1 faces in video''\<rparr>"
  by (simp add: handler_defs video_defs world_defs writer_opens_def)

text \<open>
  C6, amended. When \<open>get_json\<close> returns \<open>None\<close> (no JSON body) or another value that
  counts as false, or a dict, a list or a string that does not contain \<open>videoUrl\<close>, the
  response has status 400 and the body \<open>{success: false, error}\<close>. A body that is a
  number other than zero or \<open>true\<close> cannot be searched for the key: the test raises and
  the response has status 500; so it has when \<open>get_json\<close> itself raises. In all these
  cases nothing is downloaded or processed and the disk is as before.
\<close>

theorem blur_video_missing_parameter:
  "(\<not> truthy data \<or> py_in ''videoUrl'' data = Inr False \<longrightarrow>
      blur_video w d (Inr data)
        = \<lparr>resp = \<lparr>status = 400, body = Failure ''Missing videoUrl parameter''\<rparr>,
           disk_after = d, actions = []\<rparr>) \<and>
   (truthy data \<and> py_in ''videoUrl'' data = Inl e \<longrightarrow>
      blur_video w d (Inr data)
        = \<lparr>resp = \<lparr>status = 500, body = Failure (py_str e)\<rparr>, disk_after = d, actions = []\<rparr>) \<and>
   blur_video w d (Inl e)
     = \<lparr>resp = \<lparr>status = 500, body = Failure (py_str e)\<rparr>, disk_after = d, actions = []\<rparr> \<and>
   py_in ''videoUrl'' (JDict items) = Inr (''videoUrl'' \<in> fst ` set items)"
  by (auto simp: blur_video_def failure_def)

theorem blur_video_missing_parameter_witness:
  "blur_video sample_world Map.empty (Inr JNull)
     = \<lparr>resp = \<lparr>status = 400, body = Failure ''Missing videoUrl parameter''\<rparr>,
        disk_after = Map.empty, actions = []\<rparr> \<and>
   blur_video sample_world Map.empty (Inr (JDict [(''url'', JStr ''http://example.org/v.mp4'')]))
     = \<lparr>resp = \<lparr>status = 400, body = Failure ''Missing videoUrl parameter''\<rparr>,
        disk_after = Map.empty, actions = []\<rparr> \<and>
   blur_video sample_world Map.empty (Inr (JBool True))
     = \<lparr>resp = \<lparr>status = 500, body = Failure (py_str (not_a_container ''bool''))\<rparr>,
        disk_after = Map.empty, actions = []\<rparr>"
proof -
  have absent: "\<not> truthy JNull \<or> py_in ''videoUrl'' JNull = Inr False"
    by simp
  have lacks: "\<not> truthy (JDict [(''url'', JStr ''http://example.org/v.mp4'')]) \<or>
      py_in ''videoUrl'' (JDict [(''url'', JStr ''http://example.org/v.mp4'')]) = Inr False"
    by simp
  have bool: "truthy (JBool True) \<and> py_in ''videoUrl'' (JBool True) = Inl (not_a_container ''bool'')"
    by simp
  from blur_video_missing_parameter[where data = JNull and w = sample_world and d = Map.empty,
          THEN conjunct1, rule_format, OF absent]
       blur_video_missing_parameter[where data = "JDict [(''url'', JStr ''http://example.org/v.mp4'')]"
          and w = sample_world and d = Map.empty, THEN conjunct1, rule_format, OF lacks]
       blur_video_missing_parameter[where data = "JBool True" and e = "not_a_container ''bool''"
          and w = sample_world and d = Map.empty, THEN conjunct2, THEN conjunct1, rule_format, OF bool]
  show ?thesis by simp
qed

text \<open>
  C6 as stated fails for a body without the key that is a number: \<open>5\<close> has no
  \<open>videoUrl\<close>, and the response has status 500. It fails as well for a request without a
  body on which \<open>get_json\<close> raises.
\<close>

theorem blur_video_missing_parameter_counterexample:
  "py_getitem (JInt 5) ''videoUrl'' = Inl (not_subscriptable ''int'') \<and>
   resp (blur_video sample_world Map.empty (Inr (JInt 5)))
     = \<lparr>status = 500, body = Failure (py_str (not_a_container ''int''))\<rparr> \<and>
   resp (blur_video sample_world Map.empty (Inl (LibraryError ''400 Bad Request'')))
     = \<lparr>status = 500, body = Failure ''400 Bad Request''\<rparr>"
  by (simp add: blur_video_def failure_def)

text \<open>
  C10. In every success response the \<open>outputPath\<close> is the path of the downloaded
  temporary file with every \<open>.mp4\<close> replaced by \<open>_blurred.mp4\<close>, and that path ends in
  \<open>.mp4\<close>: the path is made of parts without \<open>.mp4\<close> that are joined by \<open>.mp4\<close>,
  and the \<open>outputPath\<close> is the same parts joined by \<open>_blurred.mp4\<close>, however the path
  is cut into such parts.
\<close>

theorem blur_video_output_path:
  assumes "body (resp (blur_video w d request)) = Success n outp sz msg"
  shows "\<exists>data url d1 p. request = Inr data \<and> py_getitem data ''videoUrl'' = Inr url \<and>
           download_video w d url = (d1, Inr p) \<and> suffix ''.mp4'' p \<and>
           outp = py_replace p ''.mp4'' ''_blurred.mp4'' \<and>
           (\<exists>parts. p = join ''.mp4'' parts \<and> (\<forall>s \<in> set parts. \<not> sublist ''.mp4'' s) \<and>
                    outp = join ''_blurred.mp4'' parts) \<and>
           (\<forall>parts. p = join ''.mp4'' parts \<and> (\<forall>s \<in> set parts. \<not> sublist ''.mp4'' s) \<longrightarrow>
                    outp = join ''_blurred.mp4'' parts)"
proof -
  from assms obtain data where data: "request = Inr data"
    by (cases request) (auto simp: blur_video_def failure_def)
  from assms data obtain url where url: "py_getitem data ''videoUrl'' = Inr url"
    and body: "body (resp (blur_url w d url)) = Success n outp sz msg"
    by (auto simp: blur_video_def failure_def split: if_splits sum.splits bool.splits)
  from blur_url_success[OF body] obtain d1 p where dl: "download_video w d url = (d1, Inr p)"
    and outp: "outp = py_replace p ''.mp4'' ''_blurred.mp4''"
    by blast
  from dl have suf: "suffix ''.mp4'' p"
    by (rule download_video_suffix)
  have every: "outp = join ''_blurred.mp4'' parts"
    if "p = join ''.mp4'' parts \<and> (\<forall>s \<in> set parts. \<not> sublist ''.mp4'' s)" for parts
    using that outp py_replace_join[of parts "''_blurred.mp4''"] by simp
  from parts_exist[of p] obtain parts
    where parts: "p = join ''.mp4'' parts \<and> (\<forall>s \<in> set parts. \<not> sublist ''.mp4'' s)"
    by (elim exE conjE) (rule that, rule conjI)
  have ex: "\<exists>parts. p = join ''.mp4'' parts \<and> (\<forall>s \<in> set parts. \<not> sublist ''.mp4'' s) \<and>
      outp = join ''_blurred.mp4'' parts"
  proof (intro exI conjI)
    show "p = join ''.mp4'' parts"
      by (rule parts[THEN conjunct1])
    show "\<forall>s \<in> set parts. \<not> sublist ''.mp4'' s"
      by (rule parts[THEN conjunct2])
    show "outp = join ''_blurred.mp4'' parts"
      by (rule every[OF parts])
  qed
  have all: "\<forall>parts. p = join ''.mp4'' parts \<and> (\<forall>s \<in> set parts. \<not> sublist ''.mp4'' s) \<longrightarrow>
      outp = join ''_blurred.mp4'' parts"
    by (intro allI impI) (rule every)
  show ?thesis
  proof (rule exI[of _ data], rule exI[of _ url], rule exI[of _ d1], rule exI[of _ p], intro conjI)
    show "request = Inr data" by (rule data)
    show "py_getitem data ''videoUrl'' = Inr url" by (rule url)
    show "download_video w d url = (d1, Inr p)" by (rule dl)
    show "suffix ''.mp4'' p" by (rule suf)
    show "outp = py_replace p ''.mp4'' ''_blurred.mp4''" by (rule outp)
    show "\<exists>parts. p = join ''.mp4'' parts \<and> (\<forall>s \<in> set parts. \<not> sublist ''.mp4'' s) \<and>
      outp = join ''_blurred.mp4'' parts" by (rule ex)
    show "\<forall>parts. p = join ''.mp4'' parts \<and> (\<forall>s \<in> set parts. \<not> sublist ''.mp4'' s) \<longrightarrow>
      outp = join ''_blurred.mp4'' parts" by (rule all)
  qed
qed

theorem blur_video_output_path_witness:
  "body (resp (blur_video nested_world Map.empty sample_request))
     = Success 1 ''/tmp/a_blurred.mp4.d/tmpab12cd_blurred.mp4'' 100 ''Blurred 1 faces in video'' \<and>
   snd (download_video nested_world Map.empty (JStr ''http://example.org/v.mp4''))
     = Inr ''/tmp/a.mp4.d/tmpab12cd.mp4'' \<and>
   ''/tmp/a.mp4.d/tmpab12cd.mp4'' = join ''.mp4'' [''/tmp/a'', ''.d/tmpab12cd'', []] \<and>
   ''/tmp/a_blurred.mp4.d/tmpab12cd_blurred.mp4''
     = join ''_blurred.mp4'' [''/tmp/a'', ''.d/tmpab12cd'', []]"
proof -
  have run: "body (resp (blur_video nested_world Map.empty sample_request))
     = Success 1 ''/tmp/a_blurred.mp4.d/tmpab12cd_blurred.mp4'' 100 ''Blurred 1 faces in video''"
    by (simp add: handler_defs video_defs world_defs)
  have dl: "download_video nested_world Map.empty (JStr ''http://example.org/v.mp4'')
     = ([''/tmp/a.mp4.d/tmpab12cd.mp4'' \<mapsto> 8292], Inr ''/tmp/a.mp4.d/tmpab12cd.mp4'')"
    by (simp add: download_video_def world_defs Let_def)
  have url: "py_getitem (JDict sample_items) ''videoUrl'' = Inr (JStr ''http://example.org/v.mp4'')"
    by (simp add: sample_items_def)
  have cut: "''/tmp/a.mp4.d/tmpab12cd.mp4'' = join ''.mp4'' [''/tmp/a'', ''.d/tmpab12cd'', []] \<and>
      (\<forall>s \<in> set [''/tmp/a'', ''.d/tmpab12cd'', []]. \<not> sublist ''.mp4'' s)"
    by (simp add: sublist_Cons_right)
  from blur_video_output_path[OF run] obtain data url' d1 p
    where req: "sample_request = Inr data" and item: "py_getitem data ''videoUrl'' = Inr url'"
      and got: "download_video nested_world Map.empty url' = (d1, Inr p)"
      and every: "\<forall>parts. p = join ''.mp4'' parts \<and> (\<forall>s \<in> set parts. \<not> sublist ''.mp4'' s) \<longrightarrow>
                    ''/tmp/a_blurred.mp4.d/tmpab12cd_blurred.mp4'' = join ''_blurred.mp4'' parts"
    by (elim exE conjE) (rule that)
  from req have "data = JDict sample_items"
    by (simp add: sample_request_def)
  with item url have "url' = JStr ''http://example.org/v.mp4''"
    by simp
  with got dl have path: "p = ''/tmp/a.mp4.d/tmpab12cd.mp4''"
    by simp
  have first: "p = join ''.mp4'' [''/tmp/a'', ''.d/tmpab12cd'', []]"
    by (simp only: path) (rule cut[THEN conjunct1])
  note both = conjI[OF first cut[THEN conjunct2]]
  from every[rule_format, OF both]
  have replaced: "''/tmp/a_blurred.mp4.d/tmpab12cd_blurred.mp4''
     = join ''_blurred.mp4'' [''/tmp/a'', ''.d/tmpab12cd'', []]" .
  show ?thesis
  proof (intro conjI)
    show "body (resp (blur_video nested_world Map.empty sample_request))
       = Success 1 ''/tmp/a_blurred.mp4.d/tmpab12cd_blurred.mp4'' 100 ''Blurred 1 faces in video''"
      by (rule run)
    show "snd (download_video nested_world Map.empty (JStr ''http://example.org/v.mp4''))
       = Inr ''/tmp/a.mp4.d/tmpab12cd.mp4''"
      by (simp only: dl snd_conv)
    show "''/tmp/a.mp4.d/tmpab12cd.mp4'' = join ''.mp4'' [''/tmp/a'', ''.d/tmpab12cd'', []]"
      by (rule cut[THEN conjunct1])
    show "''/tmp/a_blurred.mp4.d/tmpab12cd_blurred.mp4''
       = join ''_blurred.mp4'' [''/tmp/a'', ''.d/tmpab12cd'', []]"
      by (rule replaced)
  qed
qed

subsection \<open>Slices\<close>

lemma slice_bound_le: "slice_bound n i \<le> n"
  by (auto simp: slice_bound_def max_def)

lemma length_py_slice:
  "length (py_slice a b xs) = slice_bound (length xs) b - slice_bound (length xs) a"
  using slice_bound_le[of "length xs" b] by (simp add: py_slice_def Let_def)

lemma nth_py_slice:
  "k < length (py_slice a b xs) \<Longrightarrow> py_slice a b xs ! k = xs ! (slice_bound (length xs) a + k)"
  using slice_bound_le[of "length xs" a] by (simp add: py_slice_def Let_def)

lemma length_set_slice:
  assumes "length vs = slice_bound (length xs) b - slice_bound (length xs) a"
  shows "length (set_slice a b xs vs) = length xs"
  using assms slice_bound_le[of "length xs" a] slice_bound_le[of "length xs" b]
  by (simp add: set_slice_def Let_def)

lemma nth_set_slice_outside:
  assumes "length vs = slice_bound (length xs) b - slice_bound (length xs) a"
    and "i < length xs"
    and "i < slice_bound (length xs) a \<or> slice_bound (length xs) b \<le> i"
  shows "set_slice a b xs vs ! i = xs ! i"
proof (cases "i < slice_bound (length xs) a")
  case True
  then show ?thesis
    using slice_bound_le[of "length xs" a] by (simp add: set_slice_def Let_def nth_append)
next
  case False
  with assms(3) have hi: "slice_bound (length xs) b \<le> i" by simp
  from False assms(1) hi
  have "\<not> i < slice_bound (length xs) a + length vs" by simp
  with False assms(1,2) hi show ?thesis
    using slice_bound_le[of "length xs" a]
    by (auto simp: set_slice_def Let_def nth_append max_def)
qed

lemma nth_set_slice_inside:
  assumes "length vs = slice_bound (length xs) b - slice_bound (length xs) a"
    and "slice_bound (length xs) a \<le> i" and "i < slice_bound (length xs) b"
  shows "set_slice a b xs vs ! i = vs ! (i - slice_bound (length xs) a)"
  using assms slice_bound_le[of "length xs" a]
  by (auto simp: set_slice_def Let_def nth_append)

lemma slice_bound_nonneg: "0 \<le> a \<Longrightarrow> slice_bound n a = min n (nat a)"
  by (simp add: slice_bound_def)

text \<open>
  The sum of two \<open>int32\<close> that are not negative is their sum as integers, or wraps to a
  negative number. Either way the upper bound of the slice \<open>x:x+w\<close> of a list shorter
  than \<open>2\<^sup>3\<^sup>1\<close> is at most the sum as integers.
\<close>

lemma sint_add_no_wrap:
  fixes x w :: "32 word"
  assumes "0 \<le> sint x" and "0 \<le> sint w" and "sint x + sint w < 2 ^ 31"
  shows "sint (x + w) = sint x + sint w"
proof -
  have "sint (x + w) = signed_take_bit (LENGTH(32) - 1) (sint x + sint w)"
    by (rule sint_word_ariths)
  also have "\<dots> = sint x + sint w"
    using assms by (intro signed_take_bit_int_eq_self) simp_all
  finally show ?thesis .
qed

lemma below_upper_bound:
  fixes x w :: "32 word"
  assumes "0 \<le> sint x" and "0 \<le> sint w" and "n < 2 ^ 31"
    and "i < slice_bound n (sint (x + w))"
  shows "int i < sint x + sint w"
proof (cases "sint x + sint w < 2 ^ 31")
  case True
  from sint_add_no_wrap[OF assms(1,2) True] assms(1,2,4)
  have "i < nat (sint x + sint w)"
    by (simp add: slice_bound_nonneg)
  then show ?thesis by linarith
next
  case False
  from assms(4) slice_bound_le[of n "sint (x + w)"] have "i < n" by simp
  with assms(3) have "int i < 2 ^ 31" by simp
  with False show ?thesis by simp
qed

lemma above_lower_bound:
  assumes "0 \<le> a" and "slice_bound n a \<le> i" and "i < n"
  shows "a \<le> int i"
  using assms by (simp add: slice_bound_nonneg min_def split: if_splits)

subsection \<open>Regions\<close>

lemma GaussianBlur_shape:
  assumes "GaussianBlur w src = Inr out"
  shows "map length out = map length src"
proof -
  from assms have out: "out = map (\<lambda>i. map (gaussian w src i) [0..<length (src ! i)]) [0..<length src]"
    by (simp add: GaussianBlur_def split: if_splits)
  have "map length (map (\<lambda>i. map (gaussian w src i) [0..<length (src ! i)]) [0..<length src])
          = map length src"
    by (rule nth_equalityI) simp_all
  with out show ?thesis by simp
qed

lemma length_region: "length (region (x, y, w, h) f) = length (py_slice (sint y) (sint (y + h)) f)"
  by (simp add: region_def)

text \<open>Writing a region of the right shape keeps the shape of the frame.\<close>

lemma set_region_shape:
  assumes "map length new = map length (region r f)"
  shows "map length (set_region r f new) = map length f"
proof -
  obtain x y w h where r: "r = (x, y, w, h)" by (cases r)
  let ?lo = "slice_bound (length f) (sint y)" and ?hi = "slice_bound (length f) (sint (y + h))"
  let ?rows = "py_slice (sint y) (sint (y + h)) f"
  let ?vs = "map (\<lambda>(row, vs). set_slice (sint x) (sint (x + w)) row vs) (zip ?rows new)"
  from assms have len_new: "length new = length ?rows"
    unfolding r by (metis length_map length_region)
  then have len_vs: "length ?vs = ?hi - ?lo"
    by (simp add: length_py_slice)
  have len: "length (set_region r f new) = length f"
    unfolding r set_region_def by (simp only: prod.case length_set_slice[OF len_vs])
  have row: "length (set_region r f new ! i) = length (f ! i)" if i: "i < length f" for i
  proof (cases "?lo \<le> i \<and> i < ?hi")
    case False
    then have "set_region r f new ! i = f ! i"
      unfolding r set_region_def prod.case
      by (intro nth_set_slice_outside[OF len_vs i]) auto
    then show ?thesis by simp
  next
    case True
    let ?k = "i - ?lo"
    from True have k: "?k < length ?rows"
      unfolding length_py_slice by arith
    from True have "set_region r f new ! i = ?vs ! ?k"
      unfolding r set_region_def prod.case
      by (intro nth_set_slice_inside[OF len_vs]) auto
    also have "\<dots> = set_slice (sint x) (sint (x + w)) (?rows ! ?k) (new ! ?k)"
      using k len_new by simp
    finally have eq: "set_region r f new ! i
        = set_slice (sint x) (sint (x + w)) (?rows ! ?k) (new ! ?k)" .
    have rowk: "?rows ! ?k = f ! i"
      using nth_py_slice[OF k] True by simp
    from assms have "map length new ! ?k = map length (region r f) ! ?k"
      by simp
    with k len_new have "length (new ! ?k) = length (py_slice (sint x) (sint (x + w)) (?rows ! ?k))"
      by (simp add: r region_def)
    then have "length (new ! ?k)
                 = slice_bound (length (f ! i)) (sint (x + w)) - slice_bound (length (f ! i)) (sint x)"
      by (simp add: rowk length_py_slice)
    from length_set_slice[OF this] show ?thesis
      by (simp add: eq rowk)
  qed
  from len row show ?thesis
    by (simp add: list_eq_iff_nth_eq)
qed

text \<open>Writing a region changes no pixel outside a rectangle that is not negative.\<close>

lemma set_region_outside:
  assumes "map length new = map length (region r f)"
    and "valid_rect r"
    and "i < length f" and "j < length (f ! i)" and "\<not> in_rect r i j"
    and "frame_fits f"
  shows "set_region r f new ! i ! j = f ! i ! j"
proof -
  obtain x y w h where r: "r = (x, y, w, h)" by (cases r)
  from assms(2) have nn: "0 \<le> sint x" "0 \<le> sint y" "0 \<le> sint w" "0 \<le> sint h"
    by (simp_all add: r valid_rect_def)
  from assms(6) have high: "length f < 2 ^ 31"
    by (simp add: frame_fits_def)
  from assms(3,6) have wide: "length (f ! i) < 2 ^ 31"
    by (simp add: frame_fits_def)
  let ?lo = "slice_bound (length f) (sint y)" and ?hi = "slice_bound (length f) (sint (y + h))"
  let ?rows = "py_slice (sint y) (sint (y + h)) f"
  let ?vs = "map (\<lambda>(row, vs). set_slice (sint x) (sint (x + w)) row vs) (zip ?rows new)"
  from assms(1) have len_new: "length new = length ?rows"
    unfolding r by (metis length_map length_region)
  then have len_vs: "length ?vs = ?hi - ?lo"
    by (simp add: length_py_slice)
  show ?thesis
  proof (cases "?lo \<le> i \<and> i < ?hi")
    case False
    then have "set_region r f new ! i = f ! i"
      unfolding r set_region_def prod.case
      by (intro nth_set_slice_outside[OF len_vs assms(3)]) auto
    then show ?thesis by simp
  next
    case True
    let ?k = "i - ?lo"
    from True have k: "?k < length ?rows"
      unfolding length_py_slice by arith
    from True have "set_region r f new ! i = ?vs ! ?k"
      unfolding r set_region_def prod.case
      by (intro nth_set_slice_inside[OF len_vs]) auto
    also have "\<dots> = set_slice (sint x) (sint (x + w)) (?rows ! ?k) (new ! ?k)"
      using k len_new by simp
    finally have eq: "set_region r f new ! i
        = set_slice (sint x) (sint (x + w)) (?rows ! ?k) (new ! ?k)" .
    have rowk: "?rows ! ?k = f ! i"
      using nth_py_slice[OF k] True by simp
    from assms(1) have "map length new ! ?k = map length (region r f) ! ?k"
      by simp
    with k len_new have "length (new ! ?k) = length (py_slice (sint x) (sint (x + w)) (?rows ! ?k))"
      by (simp add: r region_def)
    then have len_k: "length (new ! ?k)
                 = slice_bound (length (f ! i)) (sint (x + w)) - slice_bound (length (f ! i)) (sint x)"
      by (simp add: rowk length_py_slice)
    from True have "?lo \<le> i" and below: "i < ?hi" by simp_all
    from above_lower_bound[OF nn(2) this(1) assms(3)] have "sint y \<le> int i" .
    moreover from below_upper_bound[OF nn(2,4) high below] have "int i < sint y + sint h" .
    ultimately have "\<not> (sint x \<le> int j \<and> int j < sint x + sint w)"
      using assms(5) by (simp add: r in_rect_def)
    moreover have "sint x \<le> int j"
      if "slice_bound (length (f ! i)) (sint x) \<le> j"
      using above_lower_bound[OF nn(1) that assms(4)] .
    moreover have "int j < sint x + sint w"
      if "j < slice_bound (length (f ! i)) (sint (x + w))"
      using below_upper_bound[OF nn(1,3) wide that] .
    ultimately have "j < slice_bound (length (f ! i)) (sint x) \<or>
        slice_bound (length (f ! i)) (sint (x + w)) \<le> j"
      by (meson not_le_imp_less)
    from nth_set_slice_outside[OF len_k assms(4) this] show ?thesis
      by (simp add: eq rowk)
  qed
qed

subsection \<open>\<open>apply_face_blur\<close>\<close>

lemma shape_nth:
  assumes "map length a = map length (b :: 'a list list)"
  shows "length a = length b" and "i < length b \<Longrightarrow> length (a ! i) = length (b ! i)"
proof -
  from assms show len: "length a = length b"
    by (rule map_eq_imp_length_eq)
  assume i: "i < length b"
  from assms have "map length a ! i = map length b ! i" by simp
  with i len show "length (a ! i) = length (b ! i)" by simp
qed

lemma frame_fits_shape:
  assumes "map length a = map length b"
  shows "frame_fits a = frame_fits b"
proof -
  have "frame_fits f = (length (map length f) < 2 ^ 31 \<and> (\<forall>n \<in> set (map length f). n < 2 ^ 31))"
    for f :: frame
    by (simp add: frame_fits_def)
  with assms show ?thesis by (simp only:)
qed

text \<open>
  The loop over the faces keeps the shape of the frame, and the pixels outside the
  rectangles when no rectangle is negative.
\<close>

lemma blur_faces_shape:
  "blur_faces w faces f = Inr out \<Longrightarrow> map length out = map length f"
proof (induction faces arbitrary: f)
  case Nil
  then show ?case by simp
next
  case (Cons r faces)
  from Cons.prems obtain bf where bf: "GaussianBlur w (region r f) = Inr bf"
    and rest: "blur_faces w faces (set_region r f bf) = Inr out"
    by (auto split: sum.splits)
  from set_region_shape[OF GaussianBlur_shape[OF bf]] Cons.IH[OF rest]
  show ?case by simp
qed

lemma blur_faces_outside:
  assumes "blur_faces w faces f = Inr out"
    and "\<forall>r \<in> set faces. valid_rect r"
    and "i < length f" and "j < length (f ! i)" and "\<not> covered faces i j"
    and "frame_fits f"
  shows "out ! i ! j = f ! i ! j"
  using assms
proof (induction faces arbitrary: f)
  case Nil
  then show ?case by simp
next
  case (Cons r faces)
  from Cons.prems(1) obtain bf where bf: "GaussianBlur w (region r f) = Inr bf"
    and rest: "blur_faces w faces (set_region r f bf) = Inr out"
    by (auto split: sum.splits)
  let ?f1 = "set_region r f bf"
  note shape = set_region_shape[OF GaussianBlur_shape[OF bf]]
  from shape_nth[OF shape] Cons.prems(3,4)
  have i1: "i < length ?f1" and j1: "j < length (?f1 ! i)"
    by simp_all
  from Cons.prems(2) have valid: "valid_rect r" and valids: "\<forall>r \<in> set faces. valid_rect r"
    by simp_all
  from Cons.prems(5) have out_r: "\<not> in_rect r i j" and out_rest: "\<not> covered faces i j"
    by (simp_all add: covered_def)
  from frame_fits_shape[OF shape] Cons.prems(6) have fits1: "frame_fits ?f1"
    by simp
  have "out ! i ! j = ?f1 ! i ! j"
    by (rule Cons.IH[OF rest valids i1 j1 out_rest fits1])
  also have "\<dots> = f ! i ! j"
    by (rule set_region_outside[OF GaussianBlur_shape[OF bf] valid Cons.prems(3,4) out_r
          Cons.prems(6)])
  finally show ?case .
qed

text \<open>
  On the store, the loop writes to the array at \<open>b\<close> and to new arrays only, and the
  array at \<open>b\<close> ends as the loop on values says.
\<close>

lemma blur_faces_heap_sound:
  assumes "blur_faces_heap w faces b hp = (hp', err)" and "b < length hp"
  shows "length hp \<le> length hp' \<and>
         (\<forall>a < length hp. a \<noteq> b \<longrightarrow> hp' ! a = hp ! a) \<and>
         blur_faces w faces (hp ! b) = (case err of None \<Rightarrow> Inr (hp' ! b) | Some e \<Rightarrow> Inl e)"
  using assms
proof (induction faces arbitrary: hp)
  case Nil
  then show ?case by auto
next
  case (Cons r faces)
  show ?case
  proof (cases "GaussianBlur w (region r (hp ! b))")
    case (Inl e)
    with Cons.prems show ?thesis by auto
  next
    case (Inr bf)
    let ?hp1 = "hp @ [bf]"
    let ?hp2 = "?hp1[b := set_region r (hp ! b) bf]"
    from Cons.prems(2) have hp1b: "?hp1 ! b = hp ! b" and hp1n: "?hp1 ! length hp = bf"
      by (simp_all add: nth_append)
    from Cons.prems(1) Inr hp1b hp1n have run: "blur_faces_heap w faces b ?hp2 = (hp', err)"
      by (simp add: Let_def)
    from Cons.prems(2) have b2: "b < length ?hp2" by simp
    from Cons.IH[OF run b2]
    have len: "length ?hp2 \<le> length hp'"
      and keep: "\<forall>a < length ?hp2. a \<noteq> b \<longrightarrow> hp' ! a = ?hp2 ! a"
      and val: "blur_faces w faces (?hp2 ! b) = (case err of None \<Rightarrow> Inr (hp' ! b) | Some e \<Rightarrow> Inl e)"
      by blast+
    from len have "length hp \<le> length hp'" by simp
    moreover have "\<forall>a < length hp. a \<noteq> b \<longrightarrow> hp' ! a = hp ! a"
    proof (intro allI impI)
      fix a assume a: "a < length hp" "a \<noteq> b"
      with keep have "hp' ! a = ?hp2 ! a" by simp
      with a show "hp' ! a = hp ! a" by (simp add: nth_append)
    qed
    moreover from Cons.prems(2) have "?hp2 ! b = set_region r (hp ! b) bf" by simp
    with val Inr have "blur_faces w (r # faces) (hp ! b)
        = (case err of None \<Rightarrow> Inr (hp' ! b) | Some e \<Rightarrow> Inl e)"
      by simp
    ultimately show ?thesis by blast
  qed
qed

lemma apply_face_blur_heap_sound:
  assumes "apply_face_blur_heap w hp frame faces = (hp', res)"
  shows "(\<forall>a < length hp. hp' ! a = hp ! a) \<and>
         (\<forall>b. res = Inr b \<longrightarrow> b = length hp \<and> apply_face_blur w (hp ! frame) faces = Inr (hp' ! b))"
proof -
  let ?hp1 = "hp @ [hp ! frame]"
  obtain hp2 err where run: "blur_faces_heap w faces (length hp) ?hp1 = (hp2, err)"
    by (cases "blur_faces_heap w faces (length hp) ?hp1")
  from assms run have hp': "hp' = hp2"
    and res: "res = (case err of Some e \<Rightarrow> Inl e | None \<Rightarrow> Inr (length hp))"
    by (simp_all add: apply_face_blur_heap_def Let_def)
  have "length hp < length ?hp1" by simp
  from blur_faces_heap_sound[OF run this]
  have keep: "\<forall>a < length ?hp1. a \<noteq> length hp \<longrightarrow> hp2 ! a = ?hp1 ! a"
    and val: "blur_faces w faces (?hp1 ! length hp)
                = (case err of None \<Rightarrow> Inr (hp2 ! length hp) | Some e \<Rightarrow> Inl e)"
    by blast+
  have "\<forall>a < length hp. hp' ! a = hp ! a"
  proof (intro allI impI)
    fix a assume a: "a < length hp"
    with keep have "hp2 ! a = ?hp1 ! a" by simp
    with a show "hp' ! a = hp ! a" by (simp add: hp' nth_append)
  qed
  moreover have "\<forall>b. res = Inr b \<longrightarrow> b = length hp \<and> apply_face_blur w (hp ! frame) faces = Inr (hp' ! b)"
    using val res by (auto simp: hp' apply_face_blur_def split: option.splits)
  ultimately show ?thesis by blast
qed

text \<open>
  The sum \<open>x + w\<close> wraps for a rectangle at the far end of \<open>int32\<close>: the slice is
  empty and the Gaussian filter raises.
\<close>

lemma apply_face_blur_wrap:
  "apply_face_blur sample_world sample_frame [(1, 0, 2147483647, 1)]
     = Inl (LibraryError ''GaussianBlur: empty source'')"
  by (simp add: video_defs world_defs)

text \<open>
  C9, amended. \<open>apply_face_blur\<close> does not mutate its input frame: it works on a copy,
  every array of the store is afterwards as it was, and the frame it returns has the
  shape of the input frame. For face rectangles whose \<open>x\<close>, \<open>y\<close>, \<open>w\<close> and \<open>h\<close> are
  not negative, and a frame with less than \<open>2\<^sup>3\<^sup>1\<close> rows and columns as every array of
  OpenCV has, every pixel of the frame it returns outside the union of the rectangles
  equals the pixel of the input frame at the same place.
\<close>

theorem apply_face_blur_frame:
  assumes "frame < length hp"
    and "apply_face_blur_heap w hp frame faces = (hp', res)"
  shows "hp' ! frame = hp ! frame \<and>
         (\<forall>a < length hp. hp' ! a = hp ! a) \<and>
         (\<forall>b. res = Inr b \<longrightarrow> b \<noteq> frame \<and> map length (hp' ! b) = map length (hp ! frame)) \<and>
         ((\<forall>r \<in> set faces. valid_rect r) \<and> frame_fits (hp ! frame) \<longrightarrow>
            (\<forall>b. res = Inr b \<longrightarrow>
               (\<forall>i j. i < length (hp ! frame) \<longrightarrow> j < length (hp ! frame ! i) \<longrightarrow>
                      \<not> covered faces i j \<longrightarrow> hp' ! b ! i ! j = hp ! frame ! i ! j)))"
proof -
  note sound = apply_face_blur_heap_sound[OF assms(2)]
  from sound have keep: "\<forall>a < length hp. hp' ! a = hp ! a"
    by blast
  with assms(1) have same: "hp' ! frame = hp ! frame"
    by simp
  have fresh: "b \<noteq> frame \<and> map length (hp' ! b) = map length (hp ! frame)"
    if b: "res = Inr b" for b
  proof -
    from sound b have at: "b = length hp"
      and val: "blur_faces w faces (hp ! frame) = Inr (hp' ! b)"
      by (simp_all add: apply_face_blur_def)
    from at assms(1) have "b \<noteq> frame" by simp
    moreover have "map length (hp' ! b) = map length (hp ! frame)"
      by (rule blur_faces_shape[OF val])
    ultimately show ?thesis by blast
  qed
  have outside: "hp' ! b ! i ! j = hp ! frame ! i ! j"
    if valid: "\<forall>r \<in> set faces. valid_rect r" and fits: "frame_fits (hp ! frame)"
      and b: "res = Inr b"
      and ij: "i < length (hp ! frame)" "j < length (hp ! frame ! i)" "\<not> covered faces i j"
    for b i j
  proof -
    from sound b have val: "blur_faces w faces (hp ! frame) = Inr (hp' ! b)"
      by (simp add: apply_face_blur_def)
    show ?thesis
      by (rule blur_faces_outside[OF val valid ij fits])
  qed
  from same keep fresh outside show ?thesis by blast
qed

theorem apply_face_blur_frame_witness:
  "apply_face_blur_heap sample_world [sample_frame] 0 [(1, 0, 2, 1)]
     = ([sample_frame, [[(1, 2, 3), (0, 0, 0), (0, 0, 0), (1, 1, 1)]], [[(0, 0, 0), (0, 0, 0)]]],
        Inr 1) \<and>
   valid_rect (1, 0, 2, 1) \<and>
   frame_fits sample_frame \<and>
   \<not> covered [(1, 0, 2, 1)] 0 3 \<and>
   [[(1, 2, 3), (0, 0, 0), (0, 0, 0), (1, 1, 1)]] ! 0 ! 3 = sample_frame ! 0 ! 3"
proof -
  have run: "apply_face_blur_heap sample_world [sample_frame] 0 [(1, 0, 2, 1)]
     = ([sample_frame, [[(1, 2, 3), (0, 0, 0), (0, 0, 0), (1, 1, 1)]], [[(0, 0, 0), (0, 0, 0)]]],
        Inr 1)"
    by (simp add: apply_face_blur_heap_def video_defs world_defs)
  have alloc: "(0::nat) < length [sample_frame]"
    by simp
  have valid: "\<forall>r \<in> set [(1, 0, 2, 1)]. valid_rect r"
    by (simp add: valid_rect_def)
  have fits: "frame_fits ([sample_frame] ! 0)"
    by (simp add: frame_fits_def sample_frame_def)
  have out: "\<not> covered [(1, 0, 2, 1)] 0 3"
    by (simp add: covered_def in_rect_def)
  have place: "(0::nat) < length ([sample_frame] ! 0)" "(3::nat) < length ([sample_frame] ! 0 ! 0)"
    by (simp_all add: sample_frame_def)
  from apply_face_blur_frame[OF alloc run, THEN conjunct2, THEN conjunct2, THEN conjunct2,
         rule_format, OF conjI[OF valid fits] refl place out]
  have "[sample_frame, [[(1, 2, 3), (0, 0, 0), (0, 0, 0), (1, 1, 1)]], [[(0, 0, 0), (0, 0, 0)]]]
          ! 1 ! 0 ! 3 = [sample_frame] ! 0 ! 0 ! 3" .
  with run valid fits out show ?thesis
    by simp
qed

text \<open>
  C9 as stated fails for a rectangle left of the frame: numpy counts the negative bounds
  \<open>-3:-1\<close> from the right end of the row, so the columns 1 and 2 are blurred, and they
  lie outside the rectangle.
\<close>

theorem apply_face_blur_frame_counterexample:
  "apply_face_blur_heap sample_world [sample_frame] 0 [(- 3, 0, 2, 1)]
     = ([sample_frame, [[(1, 2, 3), (0, 0, 0), (0, 0, 0), (1, 1, 1)]], [[(0, 0, 0), (0, 0, 0)]]],
        Inr 1) \<and>
   \<not> covered [(- 3, 0, 2, 1)] 0 1 \<and>
   [[(1, 2, 3), (0, 0, 0), (0, 0, 0), (1, 1, 1)]] ! 0 ! 1 \<noteq> sample_frame ! 0 ! (1::nat)"
  by (simp add: apply_face_blur_heap_def video_defs world_defs covered_def in_rect_def)

end
